theory Spec2Isabelle
  imports Main "HOL-Library.Sublist"
begin

section \<open>Python string primitives used by audit.py\<close>

text \<open>
  Python strings are modelled as \<open>string\<close> (lists of 8-bit characters); the hrefs, paths
  and messages handled here are read as ASCII text.
\<close>

definition startswith :: "string \<Rightarrow> string \<Rightarrow> bool" where
  \<comment> \<open>\<^verbatim>\<open>s.startswith(p)\<close>\<close>
  "startswith s p = prefix p s"

definition endswith :: "string \<Rightarrow> string \<Rightarrow> bool" where
  \<comment> \<open>\<^verbatim>\<open>s.endswith(p)\<close>\<close>
  "endswith s p = suffix p s"

definition contains :: "string \<Rightarrow> string \<Rightarrow> bool" where
  \<comment> \<open>\<^verbatim>\<open>p in s\<close>: \<open>p\<close> occurs in \<open>s\<close> as a contiguous substring\<close>
  "contains s p = sublist p s"

fun split_char :: "char \<Rightarrow> string \<Rightarrow> string list" where
  \<comment> \<open>\<^verbatim>\<open>s.split(c)\<close> for a one-character separator\<close>
  "split_char c [] = [[]]"
| "split_char c (x # xs) =
     (if x = c then [] # split_char c xs
      else (case split_char c xs of
              w # ws \<Rightarrow> (x # w) # ws
            | [] \<Rightarrow> [[x]]))"

definition split0 :: "char \<Rightarrow> string \<Rightarrow> string" where
  \<comment> \<open>\<^verbatim>\<open>s.split(c)[0]\<close>: the text before the first \<open>c\<close>, all of \<open>s\<close> when there is none\<close>
  "split0 c s = (case split_char c s of w # ws \<Rightarrow> w | [] \<Rightarrow> [])"

fun join_str :: "string \<Rightarrow> string list \<Rightarrow> string" where
  \<comment> \<open>\<^verbatim>\<open>sep.join(parts)\<close>\<close>
  "join_str sep [] = []"
| "join_str sep [w] = w"
| "join_str sep (w # v # ws) = w @ sep @ join_str sep (v # ws)"

definition lstrip_char :: "char \<Rightarrow> string \<Rightarrow> string" where
  \<comment> \<open>\<^verbatim>\<open>s.lstrip(c)\<close>\<close>
  "lstrip_char c s = dropWhile (\<lambda>x. x = c) s"

definition rstrip_char :: "char \<Rightarrow> string \<Rightarrow> string" where
  \<comment> \<open>\<^verbatim>\<open>s.rstrip(c)\<close>\<close>
  "rstrip_char c s = rev (dropWhile (\<lambda>x. x = c) (rev s))"

definition is_space :: "char \<Rightarrow> bool" where
  \<comment> \<open>the ASCII characters for which \<^verbatim>\<open>str.isspace\<close> holds; the white space beyond ASCII
      that \<^verbatim>\<open>str.strip\<close> also removes (U+0085, U+00A0 and others) lies outside the ASCII
      reading of strings taken here\<close>
  "is_space c = (c \<in> set [CHR '' '', CHR 0x09, CHR 0x0A, CHR 0x0B, CHR 0x0C, CHR 0x0D,
                            CHR 0x1C, CHR 0x1D, CHR 0x1E, CHR 0x1F])"

definition strip :: "string \<Rightarrow> string" where
  \<comment> \<open>\<^verbatim>\<open>s.strip()\<close>\<close>
  "strip s = rev (dropWhile is_space (rev (dropWhile is_space s)))"

fun str_nat :: "nat \<Rightarrow> string" where
  \<comment> \<open>\<^verbatim>\<open>str(n)\<close> for a non-negative integer\<close>
  "str_nat n =
     (if n < 10 then [char_of (48 + n)]
      else str_nat (n div 10) @ [char_of (48 + n mod 10)])"

declare str_nat.simps [simp del]

definition str_int :: "int \<Rightarrow> string" where
  \<comment> \<open>\<^verbatim>\<open>str(i)\<close>\<close>
  "str_int i = (if i < 0 then CHR ''-'' # str_nat (nat (- i)) else str_nat (nat i))"

abbreviation (input) quote :: string where
  "quote \<equiv> [CHR 0x27]"

section \<open>The issue ledger and the score (Auditor.__init__, Auditor.log_issue)\<close>

record issue =
  level :: string
  message :: string
  penalty :: int

record auditor =
  score :: int
  issues :: "issue list"
  internal_links_map :: "string \<rightharpoonup> string list"
  external_links :: "string list"
  soft_route_sources :: "string \<rightharpoonup> string set"
  external_link_sources :: "string \<rightharpoonup> string set"
  pages_audited :: nat
  orphans :: "string list"
  processed_files :: "string list"

text \<open>
  \<open>internal_links_map\<close>, \<open>soft_route_sources\<close> and \<open>external_link_sources\<close> are
  \<^verbatim>\<open>defaultdict\<close>s: a key is absent (\<open>None\<close>) until it is first indexed.
  \<open>external_links\<close> and \<open>processed_files\<close> are Python sets; they are kept as
  duplicate-free lists (elements enter through \<open>List.insert\<close>), and the list order
  stands for the unspecified iteration order of the set.
\<close>

definition Auditor_init :: auditor where
  "Auditor_init =
     \<lparr> score = 100, issues = [], internal_links_map = Map.empty, external_links = [],
       soft_route_sources = Map.empty, external_link_sources = Map.empty,
       pages_audited = 0, orphans = [], processed_files = [] \<rparr>"

definition log_issue :: "auditor \<Rightarrow> string \<Rightarrow> string \<Rightarrow> int \<Rightarrow> auditor" where
  \<comment> \<open>the coloured \<^verbatim>\<open>print\<close> is output only and leaves the auditor untouched\<close>
  "log_issue s lvl msg pen =
     s\<lparr> issues := issues s @ [\<lparr> level = lvl, message = msg, penalty = pen \<rparr>],
        score := max 0 (score s - pen) \<rparr>"

fun log_all :: "auditor \<Rightarrow> issue list \<Rightarrow> auditor" where
  \<comment> \<open>a sequence of \<open>log_issue\<close> calls, one per issue, in order\<close>
  "log_all s [] = s"
| "log_all s (i # is) = log_all (log_issue s (level i) (message i) (penalty i)) is"

definition total_penalty :: "auditor \<Rightarrow> int" where
  \<comment> \<open>the sum of the penalties of all issues logged so far\<close>
  "total_penalty s = sum_list (map penalty (issues s))"

definition ledger_ok :: "auditor \<Rightarrow> bool" where
  \<comment> \<open>the invariant of the ledger: no negative penalty was logged and the score is the
      clamped remainder\<close>
  "ledger_ok s \<longleftrightarrow>
     list_all (\<lambda>i. 0 \<le> penalty i) (issues s) \<and> score s = max 0 (100 - total_penalty s)"


section \<open>posixpath: join, dirname, normpath, abspath, relpath\<close>

text \<open>
  The standard-library path functions that \<^verbatim>\<open>verify_local_link\<close> calls, after their
  POSIX implementation (\<^verbatim>\<open>posixpath.py\<close>).
\<close>

definition path_join :: "string \<Rightarrow> string \<Rightarrow> string" where
  \<comment> \<open>\<^verbatim>\<open>os.path.join(a, b)\<close>; \<^verbatim>\<open>join(a, b, c)\<close> is \<open>path_join (path_join a b) c\<close>\<close>
  "path_join a b =
     (if startswith b ''/'' \<or> a = [] then b
      else if endswith a ''/'' then a @ b
      else a @ ''/'' @ b)"

definition dirname :: "string \<Rightarrow> string" where
  \<comment> \<open>\<^verbatim>\<open>os.path.dirname(p)\<close>: the text up to the last slash, trailing slashes removed
      unless it consists of slashes only\<close>
  "dirname p =
     (let head = rev (dropWhile (\<lambda>x. x \<noteq> CHR ''/'') (rev p))
      in if head \<noteq> [] \<and> head \<noteq> replicate (length head) CHR ''/''
         then rstrip_char CHR ''/'' head else head)"

fun norm_comps :: "bool \<Rightarrow> string list \<Rightarrow> string list \<Rightarrow> string list" where
  \<comment> \<open>the component loop of \<^verbatim>\<open>normpath\<close>; the second argument is \<^verbatim>\<open>new_comps\<close>\<close>
  "norm_comps initial_slashes new_comps [] = new_comps"
| "norm_comps initial_slashes new_comps (c # comps) =
     (if c = [] \<or> c = ''.'' then norm_comps initial_slashes new_comps comps
      else if c \<noteq> ''..'' \<or> (\<not> initial_slashes \<and> new_comps = [])
                \<or> (new_comps \<noteq> [] \<and> last new_comps = ''..'')
        then norm_comps initial_slashes (new_comps @ [c]) comps
      else if new_comps \<noteq> [] then norm_comps initial_slashes (butlast new_comps) comps
      else norm_comps initial_slashes new_comps comps)"

definition normpath :: "string \<Rightarrow> string" where
  \<comment> \<open>\<^verbatim>\<open>os.path.normpath(path)\<close>\<close>
  "normpath path =
     (if path = [] then ''.''
      else
        let initial_slashes =
              (if startswith path ''/''
               then (if startswith path ''//'' \<and> \<not> startswith path ''///'' then 2 else 1)
               else (0::nat));
            comps = norm_comps (initial_slashes \<noteq> 0) [] (split_char CHR ''/'' path);
            p = replicate initial_slashes CHR ''/'' @ join_str ''/'' comps
        in if p = [] then ''.'' else p)"

definition abspath :: "string \<Rightarrow> string \<Rightarrow> string" where
  \<comment> \<open>\<^verbatim>\<open>os.path.abspath(path)\<close> in the working directory \<open>cwd\<close>\<close>
  "abspath cwd path =
     normpath (if startswith path ''/'' then path else path_join cwd path)"

definition relpath :: "string \<Rightarrow> string \<Rightarrow> string \<Rightarrow> string" where
  \<comment> \<open>\<^verbatim>\<open>os.path.relpath(path, start)\<close> in the working directory \<open>cwd\<close>, for a non-empty
      \<open>path\<close> (the library raises ValueError on the empty path; \<open>isfile\<close> below is false
      there, so the auditor never passes it)\<close>
  "relpath cwd path start =
     (let start_list = filter (\<lambda>x. x \<noteq> []) (split_char CHR ''/'' (abspath cwd start));
          path_list = filter (\<lambda>x. x \<noteq> []) (split_char CHR ''/'' (abspath cwd path));
          i = length (longest_common_prefix start_list path_list);
          rel_list = replicate (length start_list - i) ''..'' @ drop i path_list
      in if rel_list = [] then ''.'' else join_str ''/'' rel_list)"

definition isfile :: "(string \<Rightarrow> bool) \<Rightarrow> string \<Rightarrow> bool" where
  \<comment> \<open>\<^verbatim>\<open>os.path.isfile(p)\<close>: the file system \<open>fs\<close> tells for each path string whether it
      names a regular file; the empty path never does\<close>
  "isfile fs p \<longleftrightarrow> p \<noteq> [] \<and> fs p"

section \<open>Config\<close>

record config =
  base_url :: "string option"
  keyword_list :: "string list"  \<comment> \<open>\<^verbatim>\<open>keywords\<close> in the source\<close>
  ignore_paths :: "string list"
  ignore_urls_prefixes :: "string list"
  ignore_urls_domains :: "string list"
  ignore_files :: "string list"
  root_dir :: string
  redirects :: "(string \<times> string) list"

text \<open>
  \<open>root_dir\<close> is \<^verbatim>\<open>os.getcwd()\<close> at construction, and the process never changes
  directory: the working directory of \<open>abspath\<close> and \<open>relpath\<close> is \<open>root_dir\<close>.
  \<open>redirects\<close> is a dict, kept as an association list: \<open>map_of\<close> looks a key up and
  the dict is empty (falsy) exactly when the list is.
\<close>

definition Config_init :: "string \<Rightarrow> config" where
  \<comment> \<open>\<^verbatim>\<open>Config.__init__\<close>, with \<open>cwd\<close> the result of \<^verbatim>\<open>os.getcwd()\<close>\<close>
  "Config_init cwd =
     \<lparr> base_url = None, keyword_list = [],
       ignore_paths = [''.git'', ''node_modules'', ''__pycache__'', ''.idea'', ''.vscode'',
                       ''MasterTool''],
       ignore_urls_prefixes = [''javascript:'', ''mailto:'', ''#'', ''tel:''],
       ignore_urls_domains = [''cdn-cgi'', ''google''],
       ignore_files = [''404.html''],
       root_dir = cwd, redirects = [] \<rparr>"

definition truthy :: "string option \<Rightarrow> bool" where
  \<comment> \<open>Python truth of a value that is None or a string\<close>
  "truthy v = (case v of None \<Rightarrow> False | Some t \<Rightarrow> t \<noteq> [])"

record index_meta =
  canonical_href :: "string option"
  og_url_content :: "string option"
  keywords_content :: "string option"

definition load_from_index :: "config \<Rightarrow> index_meta option \<Rightarrow> bool \<times> config" where
  \<comment> \<open>\<open>None\<close>: index.html is missing or could not be opened. Otherwise the three
      attribute values read from the parsed home page, \<open>None\<close> where the tag or the
      attribute is absent.\<close>
  "load_from_index cfg idx =
     (case idx of
        None \<Rightarrow> (False, cfg)
      | Some m \<Rightarrow>
          let b = (if truthy (canonical_href m) then canonical_href m
                   else if truthy (og_url_content m) then og_url_content m
                   else base_url cfg);
              b' = (if \<not> truthy b then Some [] else b);
              ks = (case keywords_content m of
                      None \<Rightarrow> keyword_list cfg
                    | Some c \<Rightarrow> if c = [] then keyword_list cfg
                                else map strip (split_char CHR '','' c))
          in (True, cfg\<lparr> base_url := b', keyword_list := ks \<rparr>))"

definition is_hex_lower :: "char \<Rightarrow> bool" where
  \<comment> \<open>the character class \<^verbatim>\<open>[a-f0-9]\<close>\<close>
  "is_hex_lower c = (c \<in> set ''abcdef0123456789'')"

definition matches_google_verification :: "string \<Rightarrow> bool" where
  \<comment> \<open>\<^verbatim>\<open>re.match(r'google[a-f0-9]+\.html', filename)\<close>: anchored at the start only. The
      class excludes the dot, so the run of class characters after "google" is matched
      whole, must be non-empty and must be followed by ".html".\<close>
  "matches_google_verification filename =
     (startswith filename ''google'' \<and>
      (let rest = drop 6 filename
       in takeWhile is_hex_lower rest \<noteq> [] \<and>
          startswith (dropWhile is_hex_lower rest) ''.html''))"

definition should_ignore_file :: "config \<Rightarrow> string \<Rightarrow> bool" where
  "should_ignore_file cfg filename =
     (if contains filename ''google'' \<and> endswith filename ''.html''
         \<and> matches_google_verification filename then True
      else list_ex (\<lambda>ignore. contains filename ignore) (ignore_files cfg))"

definition should_ignore_url :: "config \<Rightarrow> string \<Rightarrow> bool" where
  "should_ignore_url cfg url =
     (if url = [] then True
      else if list_ex (\<lambda>p. startswith url p) (ignore_urls_prefixes cfg) then True
      else if contains url ''://''
        then list_ex (\<lambda>domain. contains url domain) (ignore_urls_domains cfg)
      else False)"


section \<open>Local link resolution (Auditor.verify_local_link)\<close>

definition clean_href :: "string \<Rightarrow> string" where
  \<comment> \<open>\<^verbatim>\<open>href.split('?')[0].split('#')[0]\<close>\<close>
  "clean_href href = split0 CHR ''#'' (split0 CHR ''?'' href)"

definition potential_targets :: "config \<Rightarrow> string \<Rightarrow> string \<Rightarrow> string list" where
  \<comment> \<open>the candidate list built from the cleaned href \<open>ch\<close> found on page
      \<open>current_file_rel_path\<close>\<close>
  "potential_targets cfg ch current_file_rel_path =
     (if startswith ch ''/'' then
        let path_part = lstrip_char CHR ''/'' ch;
            targets = [path_join (root_dir cfg) (path_part @ ''.html''),
                       path_join (path_join (root_dir cfg) path_part) ''index.html'',
                       path_join (root_dir cfg) path_part]
        in if endswith path_part ''.html''
           then path_join (root_dir cfg) path_part # targets else targets
      else
        let current_dir = dirname (path_join (root_dir cfg) current_file_rel_path);
            target_abs_path = normpath (path_join current_dir ch);
            targets = [target_abs_path @ ''.html'',
                       path_join target_abs_path ''index.html'',
                       target_abs_path]
        in if endswith ch ''.html'' then target_abs_path # targets else targets)"

definition dead_link_message :: "string \<Rightarrow> string \<Rightarrow> string" where
  "dead_link_message current_file_rel_path href =
     ''In '' @ current_file_rel_path @ '': Dead Link '' @ quote @ href @ quote"

definition resolve ::
  "config \<Rightarrow> (string \<Rightarrow> bool) \<Rightarrow> string \<Rightarrow> string \<Rightarrow> string option" where
  \<comment> \<open>the first part of \<^verbatim>\<open>verify_local_link\<close>: the value of \<^verbatim>\<open>resolved_rel_path\<close> after
      the loop, \<open>None\<close> exactly when \<^verbatim>\<open>found\<close> is false. The loop with \<^verbatim>\<open>break\<close> is
      \<open>find\<close>: the first candidate that is a regular file.\<close>
  "resolve cfg fs href current_file_rel_path =
     (case find (isfile fs)
             (potential_targets cfg (clean_href href) current_file_rel_path) of
        Some p \<Rightarrow> Some (relpath (root_dir cfg) p (root_dir cfg))
      | None \<Rightarrow> None)"

definition verify_local_link ::
  "config \<Rightarrow> (string \<Rightarrow> bool) \<Rightarrow> auditor \<Rightarrow> string \<Rightarrow> string \<Rightarrow> auditor" where
  \<comment> \<open>the source's third parameter \<^verbatim>\<open>is_absolute_url\<close> is never read\<close>
  "verify_local_link cfg fs s href current_file_rel_path =
     (case resolve cfg fs href current_file_rel_path of
        Some resolved_rel_path \<Rightarrow>
          let sources = (case internal_links_map s resolved_rel_path of
                           None \<Rightarrow> [] | Some l \<Rightarrow> l)
          in s\<lparr> internal_links_map :=
                  (internal_links_map s)
                    (resolved_rel_path \<mapsto> sources @ [current_file_rel_path]) \<rparr>
      | None \<Rightarrow>
          log_issue s ''ERROR'' (dead_link_message current_file_rel_path href) 10)"

section \<open>Link classification and checks (Auditor.check_links)\<close>

record anchor =
  a_href :: string  \<comment> \<open>the raw \<^verbatim>\<open>href\<close> attribute value\<close>
  a_rel :: "string list"  \<comment> \<open>the \<^verbatim>\<open>rel\<close> tokens; empty when the attribute is absent\<close>

definition add_source :: "(string \<rightharpoonup> string set) \<Rightarrow> string \<Rightarrow> string \<Rightarrow> (string \<rightharpoonup> string set)" where
  \<comment> \<open>\<^verbatim>\<open>d[key].add(src)\<close> on a \<^verbatim>\<open>defaultdict(set)\<close>\<close>
  "add_source d key src =
     d(key \<mapsto> insert src (case d key of None \<Rightarrow> {} | Some S \<Rightarrow> S))"

definition soft_route_message :: "string \<Rightarrow> string \<Rightarrow> string" where
  "soft_route_message current_file_rel_path href =
     ''In '' @ current_file_rel_path @ '': Soft route '' @ quote @ href @ quote
       @ '' not found in _redirects.''"

definition absolute_link_message :: "string \<Rightarrow> string \<Rightarrow> string" where
  "absolute_link_message current_file_rel_path href =
     ''In '' @ current_file_rel_path @ '': Absolute internal link found '' @ quote @ href
       @ quote @ ''. Should be relative/root-relative.''"

definition missing_rel_message :: "string \<Rightarrow> string \<Rightarrow> string list \<Rightarrow> string" where
  "missing_rel_message current_file_rel_path href missing_rels =
     ''In '' @ current_file_rel_path @ '': External link '' @ quote @ href @ quote
       @ '' missing rel attributes: '' @ join_str '', '' missing_rels"

definition relative_link_message :: "string \<Rightarrow> string \<Rightarrow> string" where
  "relative_link_message current_file_rel_path href =
     ''In '' @ current_file_rel_path @ '': Relative link '' @ quote @ href @ quote
       @ '' found. Recommended: '' @ quote @ ''/'' @ href @ quote"

definition html_suffix_message :: "string \<Rightarrow> string \<Rightarrow> string" where
  "html_suffix_message current_file_rel_path href =
     ''In '' @ current_file_rel_path @ '': Link with .html suffix '' @ quote @ href @ quote
       @ ''. Recommended: Clean URL.''"

definition check_link ::
  "config \<Rightarrow> (string \<Rightarrow> bool) \<Rightarrow> string \<Rightarrow> auditor \<Rightarrow> anchor \<Rightarrow> auditor" where
  \<comment> \<open>the body of the loop over the anchors of one page\<close>
  "check_link cfg fs current_file_rel_path s a =
     (let href = strip (a_href a) in
      if should_ignore_url cfg href then s
      else if startswith href ''/go/'' then
        let s1 = s\<lparr> soft_route_sources :=
                      add_source (soft_route_sources s) href current_file_rel_path \<rparr>
        in if redirects cfg \<noteq> [] \<and> map_of (redirects cfg) href = None
           then log_issue s1 ''WARN'' (soft_route_message current_file_rel_path href) 5
           else s1
      else if startswith href ''http://'' \<or> startswith href ''https://'' then
        (if truthy (base_url cfg) \<and> startswith href (the (base_url cfg)) then
           let s1 = log_issue s ''WARN'' (absolute_link_message current_file_rel_path href) 2;
               local_part = drop (length (the (base_url cfg))) href;
               local_part' = (if \<not> startswith local_part ''/'' then ''/'' @ local_part
                              else local_part)
           in verify_local_link cfg fs s1 local_part' current_file_rel_path
         else
           let s1 = s\<lparr> external_links := List.insert href (external_links s),
                        external_link_sources :=
                          add_source (external_link_sources s) href current_file_rel_path \<rparr>;
               missing_rels = filter (\<lambda>req. req \<notin> set (a_rel a))
                                [''nofollow'', ''noopener'', ''noreferrer'']
           in if missing_rels \<noteq> []
              then log_issue s1 ''WARN''
                     (missing_rel_message current_file_rel_path href missing_rels) 2
              else s1)
      else
        let s1 = (if \<not> startswith href ''/''
                  then log_issue s ''WARN'' (relative_link_message current_file_rel_path href) 2
                  else s);
            s2 = (if endswith href ''.html''
                  then log_issue s1 ''WARN'' (html_suffix_message current_file_rel_path href) 2
                  else s1)
        in verify_local_link cfg fs s2 href current_file_rel_path)"

definition check_links ::
  "config \<Rightarrow> (string \<Rightarrow> bool) \<Rightarrow> auditor \<Rightarrow> anchor list \<Rightarrow> string \<Rightarrow> auditor" where
  \<comment> \<open>\<open>anchors\<close>: the result of \<^verbatim>\<open>soup.find_all('a', href=True)\<close>, in document order\<close>
  "check_links cfg fs s anchors current_file_rel_path =
     foldl (check_link cfg fs current_file_rel_path) s anchors"

section \<open>Semantics checks and the page loop\<close>

definition check_semantics :: "auditor \<Rightarrow> nat \<Rightarrow> bool \<Rightarrow> string \<Rightarrow> auditor" where
  \<comment> \<open>\<open>h1s\<close>: the number of h1 tags; \<open>schemas\<close>: whether a JSON-LD script tag exists.
      The breadcrumb check ends in \<^verbatim>\<open>pass\<close> and has no effect.\<close>
  "check_semantics s h1s schemas file_path =
     (let s1 = (if h1s = 0
                then log_issue s ''ERROR'' (''In '' @ file_path @ '': Missing H1 tag.'') 5
                else if h1s > 1
                then log_issue s ''ERROR''
                       (''In '' @ file_path @ '': Multiple H1 tags found ('' @ str_nat h1s
                          @ '').'') 5
                else s)
      in if \<not> schemas
         then log_issue s1 ''WARN'' (''In '' @ file_path @ '': No Schema.org JSON-LD found.'') 2
         else s1)"

datatype page_source =
  Unreadable string  \<comment> \<open>opening or reading the file raised; the text of the exception\<close>
| Markup "anchor list" nat bool  \<comment> \<open>anchors with an href, number of h1 tags, JSON-LD present\<close>

definition audit_file ::
  "config \<Rightarrow> (string \<Rightarrow> bool) \<Rightarrow> auditor \<Rightarrow> page_source \<Rightarrow> string \<Rightarrow> auditor" where
  "audit_file cfg fs s src rel_path =
     (let s1 = s\<lparr> pages_audited := pages_audited s + 1 \<rparr>
      in case src of
           Markup anchors h1s schemas \<Rightarrow>
             check_semantics (check_links cfg fs s1 anchors rel_path) h1s schemas rel_path
         | Unreadable e \<Rightarrow>
             log_issue s1 ''ERROR'' (''Failed to read file '' @ rel_path @ '': '' @ e) 0)"

record walk_entry =
  w_file :: string  \<comment> \<open>the file name produced by \<^verbatim>\<open>os.walk\<close>\<close>
  w_rel_path :: string  \<comment> \<open>its path relative to \<open>root_dir\<close>\<close>
  w_source :: page_source

definition traverse ::
  "config \<Rightarrow> (string \<Rightarrow> bool) \<Rightarrow> auditor \<Rightarrow> walk_entry list \<Rightarrow> auditor" where
  \<comment> \<open>\<open>entries\<close>: the files that \<^verbatim>\<open>os.walk\<close> yields after directory pruning, in order\<close>
  "traverse cfg fs s entries =
     foldl (\<lambda>s e.
              if \<not> endswith (w_file e) ''.html'' then s
              else if should_ignore_file cfg (w_file e) then s
              else audit_file cfg fs
                     (s\<lparr> processed_files := List.insert (w_rel_path e) (processed_files s) \<rparr>)
                     (w_source e) (w_rel_path e))
       s entries"

section \<open>Link equity (Auditor.analyze_link_equity)\<close>

definition inbound_count :: "auditor \<Rightarrow> string \<Rightarrow> nat" where
  \<comment> \<open>\<^verbatim>\<open>len(self.internal_links_map.get(file, []))\<close>\<close>
  "inbound_count s file =
     length (case internal_links_map s file of None \<Rightarrow> [] | Some l \<Rightarrow> l)"

definition orphan_message :: "string \<Rightarrow> string" where
  "orphan_message file = ''Orphan Page: '' @ file @ '' has 0 inbound links.''"

definition orphan_issue :: "string \<Rightarrow> issue" where
  \<comment> \<open>the ledger entry that the orphan branch appends\<close>
  "orphan_issue file = \<lparr> level = ''WARN'', message = orphan_message file, penalty = 5 \<rparr>"

definition analyze_link_equity :: "config \<Rightarrow> auditor \<Rightarrow> auditor" where
  \<comment> \<open>the line that skipped index.html is commented out in the source, so index.html
      takes part like every other file\<close>
  "analyze_link_equity cfg s =
     foldl (\<lambda>s' file.
              if should_ignore_file cfg file then s'
              else if inbound_count s' file = 0
              then log_issue s' ''WARN'' (orphan_message file) 5
              else s')
       s (processed_files s)"

definition top_pages :: "config \<Rightarrow> auditor \<Rightarrow> (string \<times> nat) list" where
  \<comment> \<open>the printed ranking: \<^verbatim>\<open>inbound_counts\<close> sorted by count, descending and stable,
      first ten\<close>
  "top_pages cfg s =
     take 10 (sort_key (\<lambda>(file, count). - int count)
                (map (\<lambda>file. (file, inbound_count s file))
                   (filter (\<lambda>file. \<not> should_ignore_file cfg file) (processed_files s))))"

section \<open>External links (Auditor.verify_url, Auditor.check_external_links)\<close>

datatype response =
  Status int  \<comment> \<open>a response arrived; its status code\<close>
| RequestException string  \<comment> \<open>\<^verbatim>\<open>requests.RequestException\<close> was raised; its \<^verbatim>\<open>str()\<close>, which
      is never empty: on the head/get path the library raises it with a message or around
      a urllib3 error that carries one\<close>
| OtherException string  \<comment> \<open>any other exception; its \<^verbatim>\<open>str()\<close>\<close>

record network =
  head_response :: "string \<Rightarrow> response"  \<comment> \<open>what \<^verbatim>\<open>requests.head(url, ...)\<close> does\<close>
  get_response :: "string \<Rightarrow> response"  \<comment> \<open>what \<^verbatim>\<open>requests.get(url, ...)\<close> does\<close>

datatype request = HEAD string | GET string

fun request_url :: "request \<Rightarrow> string" where
  "request_url (HEAD u) = u"
| "request_url (GET u) = u"

type_synonym url_result = "string + int option \<times> string option"

definition verify_url :: "network \<Rightarrow> string \<Rightarrow> url_result \<times> request list" where
  \<comment> \<open>the result is \<open>Inr (code, error)\<close> for a returned tuple and \<open>Inl e\<close> for an
      exception that leaves the function; the second component lists the requests made\<close>
  "verify_url net url =
     (case head_response net url of
        Status c \<Rightarrow> (Inr (Some c, None), [HEAD url])
      | OtherException e \<Rightarrow> (Inl e, [HEAD url])
      | RequestException e \<Rightarrow>
          (case get_response net url of
             Status c \<Rightarrow> (Inr (Some c, None), [HEAD url, GET url])
           | RequestException e2 \<Rightarrow> (Inr (None, Some e2), [HEAD url, GET url])
           | OtherException e2 \<Rightarrow> (Inl e2, [HEAD url, GET url])))"

definition fold_result :: "auditor \<Rightarrow> string \<Rightarrow> url_result \<Rightarrow> auditor" where
  \<comment> \<open>the body of the loop over completed futures\<close>
  "fold_result s url r =
     (case r of
        Inr (code, error) \<Rightarrow>
          if (case code of None \<Rightarrow> False | Some c \<Rightarrow> c \<noteq> 0 \<and> c \<ge> 400)
          then log_issue s ''ERROR''
                 (''External Dead Link '' @ quote @ url @ quote @ '' (Status: ''
                    @ str_int (the code) @ '')'') 5
          else if truthy error
          then log_issue s ''ERROR''
                 (''External Link Error '' @ quote @ url @ quote @ '': '' @ the error) 5
          else s
      | Inl e \<Rightarrow>
          log_issue s ''ERROR''
            (''External Link Exception '' @ quote @ url @ quote @ '': '' @ e) 5)"

definition check_external_links :: "network \<Rightarrow> auditor \<Rightarrow> auditor \<times> request list" where
  \<comment> \<open>every URL of the set is submitted once; results are folded one at a time by the
      calling thread. The list order of \<open>external_links\<close> stands for the completion order.\<close>
  "check_external_links net s =
     (if external_links s = [] then (s, [])
      else (foldl (\<lambda>s' url. fold_result s' url (fst (verify_url net url))) s (external_links s),
            concat (map (\<lambda>url. snd (verify_url net url)) (external_links s))))"

definition run ::
  "config \<Rightarrow> (string \<Rightarrow> bool) \<Rightarrow> network \<Rightarrow> walk_entry list \<Rightarrow> auditor \<Rightarrow> auditor" where
  \<comment> \<open>traverse, link equity, external links; the report only prints\<close>
  "run cfg fs net entries s =
     fst (check_external_links net (analyze_link_equity cfg (traverse cfg fs s entries)))"

section \<open>The candidate list as the specification words it\<close>

definition spec_candidates :: "config \<Rightarrow> string \<Rightarrow> string \<Rightarrow> string list" where
  \<comment> \<open>After the specification, for comparison with \<open>potential_targets\<close>: strip the query
      string, then the fragment; \<open>path\<close> is the remaining href rooted at the site root, or
      resolved against the directory of the current page and normalised; the candidates are
      the exact path (only when the stripped href ends in ".html"), path + ".html",
      path/index.html, and the exact path.\<close>
  "spec_candidates cfg href current_file_rel_path =
     (let ch = takeWhile (\<lambda>x. x \<noteq> CHR ''#'') (takeWhile (\<lambda>x. x \<noteq> CHR ''?'') href);
          path = (if startswith ch ''/''
                  then path_join (root_dir cfg) (lstrip_char CHR ''/'' ch)
                  else normpath
                         (path_join (dirname (path_join (root_dir cfg) current_file_rel_path)) ch))
      in (if endswith ch ''.html'' then [path] else [])
         @ [path @ ''.html'', path_join path ''index.html'', path])"

section \<open>Example sites\<close>

definition site_cfg :: config where
  \<comment> \<open>a site rooted at /site whose home page declares the origin https://example.com\<close>
  "site_cfg = (Config_init ''/site'')\<lparr> base_url := Some ''https://example.com'' \<rparr>"

definition post_files :: "string \<Rightarrow> bool" where
  \<comment> \<open>a tree holding post.html and post/index.html\<close>
  "post_files p \<longleftrightarrow> p \<in> set [''/site/post.html'', ''/site/post/index.html'']"

definition no_files :: "string \<Rightarrow> bool" where
  "no_files p \<longleftrightarrow> False"



definition head_blocked_net :: network where
  \<comment> \<open>the server drops HEAD requests and answers GET with 200\<close>
  "head_blocked_net =
     \<lparr> head_response = (\<lambda>url. RequestException ''Connection aborted.''),
       get_response = (\<lambda>url. Status 200) \<rparr>"

section \<open>Facts about the ledger\<close>

lemma issues_log_issue [simp]:
  "issues (log_issue s l m p) = issues s @ [\<lparr>level = l, message = m, penalty = p\<rparr>]"
  by (simp add: log_issue_def)

lemma score_log_issue [simp]: "score (log_issue s l m p) = max 0 (score s - p)"
  by (simp add: log_issue_def)

lemma log_issue_fields [simp]:
  "internal_links_map (log_issue s l m p) = internal_links_map s"
  "external_links (log_issue s l m p) = external_links s"
  "soft_route_sources (log_issue s l m p) = soft_route_sources s"
  "external_link_sources (log_issue s l m p) = external_link_sources s"
  "pages_audited (log_issue s l m p) = pages_audited s"
  "processed_files (log_issue s l m p) = processed_files s"
  by (simp_all add: log_issue_def)

lemma log_all_append: "log_all s (xs @ ys) = log_all (log_all s xs) ys"
  by (induction xs arbitrary: s) simp_all

lemma issues_log_all: "issues (log_all s js) = issues s @ js"
  by (induction js arbitrary: s) simp_all

lemma ledger_ok_init: "ledger_ok Auditor_init"
  by (simp add: ledger_ok_def Auditor_init_def total_penalty_def)

lemma ledger_ok_log_issue:
  assumes "ledger_ok s" and "0 \<le> p"
  shows "ledger_ok (log_issue s l m p)"
  using assms by (auto simp: ledger_ok_def total_penalty_def)

lemma ledger_ok_log_all:
  assumes "ledger_ok s" and "list_all (\<lambda>i. 0 \<le> penalty i) js"
  shows "ledger_ok (log_all s js)"
  using assms by (induction js arbitrary: s) (simp_all add: ledger_ok_log_issue)

lemma ledger_ok_range:
  assumes ok: "ledger_ok s"
  shows "0 \<le> score s \<and> score s \<le> 100"
proof -
  from ok have "0 \<le> total_penalty s"
    unfolding ledger_ok_def total_penalty_def
    by (auto simp: list_all_iff intro!: sum_list_nonneg)
  with ok show ?thesis by (simp add: ledger_ok_def)
qed

section \<open>C4: the score is the clamped total of the penalties\<close>

text \<open>
  C4. The score and the issue list change only in \<open>log_issue\<close>, and every call site
  passes a penalty of 0, 2, 5 or 10. Starting from the initial auditor, after any sequence
  of logged issues with non-negative penalties the ledger holds exactly those issues, the
  score equals \<open>max 0 (100 - sum of their penalties)\<close>, it lies between 0 and 100, and
  logging one more issue never raises it.
\<close>

theorem score_clamped_total:
  assumes "list_all (\<lambda>i. 0 \<le> penalty i) js"
  shows "issues (log_all Auditor_init js) = js
       \<and> score (log_all Auditor_init js) = max 0 (100 - sum_list (map penalty js))
       \<and> 0 \<le> score (log_all Auditor_init js) \<and> score (log_all Auditor_init js) \<le> 100
       \<and> (\<forall>j. 0 \<le> penalty j \<longrightarrow>
             score (log_all Auditor_init (js @ [j])) \<le> score (log_all Auditor_init js))"
proof -
  let ?s = "log_all Auditor_init js"
  have ok: "ledger_ok ?s"
    using ledger_ok_init assms by (rule ledger_ok_log_all)
  have iss: "issues ?s = js"
    by (simp add: issues_log_all Auditor_init_def)
  have sc: "score ?s = max 0 (100 - sum_list (map penalty js))"
    using ok iss by (simp add: ledger_ok_def total_penalty_def)
  have rng: "0 \<le> score ?s \<and> score ?s \<le> 100"
    using ok by (rule ledger_ok_range)
  have mono: "score (log_all Auditor_init (js @ [j])) \<le> score ?s" if "0 \<le> penalty j" for j
    using that rng by (simp add: log_all_append)
  from iss sc rng mono show ?thesis by blast
qed

theorem score_clamped_total_witness:
  "list_all (\<lambda>i. 0 \<le> penalty i)
     [\<lparr>level = ''ERROR'', message = ''m1'', penalty = 10\<rparr>,
      \<lparr>level = ''WARN'', message = ''m2'', penalty = 5\<rparr>]
   \<and> score (log_all Auditor_init
       [\<lparr>level = ''ERROR'', message = ''m1'', penalty = 10\<rparr>,
        \<lparr>level = ''WARN'', message = ''m2'', penalty = 5\<rparr>]) = 85
   \<and> score (log_all Auditor_init
       ([\<lparr>level = ''ERROR'', message = ''m1'', penalty = 10\<rparr>,
         \<lparr>level = ''WARN'', message = ''m2'', penalty = 5\<rparr>]
        @ [\<lparr>level = ''WARN'', message = ''m3'', penalty = 2\<rparr>])) \<le> 85"
  using score_clamped_total
          [of "[\<lparr>level = ''ERROR'', message = ''m1'', penalty = 10\<rparr>,
                \<lparr>level = ''WARN'', message = ''m2'', penalty = 5\<rparr>]"]
  by simp

section \<open>Facts about strings and paths\<close>

lemma split_char_nonempty: "split_char c s \<noteq> []"
  by (induction s) (auto split: list.splits)

lemma split0_takeWhile: "split0 c s = takeWhile (\<lambda>x. x \<noteq> c) s"
  by (induction s) (auto simp: split0_def split_char_nonempty split: list.splits)

lemma clean_href_takeWhile:
  "clean_href href = takeWhile (\<lambda>x. x \<noteq> CHR ''#'') (takeWhile (\<lambda>x. x \<noteq> CHR ''?'') href)"
  by (simp add: clean_href_def split0_takeWhile)

lemma lstrip_not_startswith: "\<not> startswith (lstrip_char CHR ''/'' s) ''/''"
  by (induction s) (auto simp: lstrip_char_def startswith_def)

lemma path_join_html:
  assumes "\<not> startswith b ''/''"
  shows "path_join a (b @ ''.html'') = path_join a b @ ''.html''"
proof -
  from assms have "\<not> startswith (b @ ''.html'') ''/''"
    by (cases b) (auto simp: startswith_def)
  with assms show ?thesis
    by (simp add: path_join_def)
qed

lemma endswith_lstrip_html:
  "endswith (lstrip_char CHR ''/'' s) ''.html'' \<longleftrightarrow> endswith s ''.html''"
  by (induction s) (auto simp: endswith_def lstrip_char_def suffix_Cons)

lemma potential_targets_spec:
  "potential_targets cfg (clean_href href) cur = spec_candidates cfg href cur"
  by (simp add: potential_targets_def spec_candidates_def clean_href_takeWhile Let_def
        path_join_html lstrip_not_startswith endswith_lstrip_html)

section \<open>Facts about resolution\<close>

lemma resolve_None_iff:
  "resolve cfg fs href cur = None \<longleftrightarrow>
     list_all (\<lambda>p. \<not> isfile fs p) (potential_targets cfg (clean_href href) cur)"
proof -
  have "resolve cfg fs href cur = None \<longleftrightarrow>
          find (isfile fs) (potential_targets cfg (clean_href href) cur) = None"
    by (simp add: resolve_def split: option.splits)
  then show ?thesis
    by (auto simp: find_None_iff list_all_iff)
qed

lemma verify_local_link_dead:
  assumes "resolve cfg fs href cur = None"
  shows "verify_local_link cfg fs s href cur =
           log_issue s ''ERROR'' (dead_link_message cur href) 10"
  using assms by (simp add: verify_local_link_def)

lemma verify_local_link_found:
  assumes "resolve cfg fs href cur = Some t"
  shows "verify_local_link cfg fs s href cur =
           s\<lparr> internal_links_map :=
                (internal_links_map s)
                  (t \<mapsto> (case internal_links_map s t of None \<Rightarrow> [] | Some l \<Rightarrow> l) @ [cur]) \<rparr>"
  using assms by (simp add: verify_local_link_def)

section \<open>C1: candidate order and first match\<close>

text \<open>
  C1. Resolution strips the query string and then the fragment from the href, builds the
  candidates in the order: exact path (only when the stripped href ends in ".html"),
  path + ".html", path/index.html, exact path, and resolves to the first candidate that
  is a regular file (\<open>find\<close> returns the first element that satisfies the test), as a
  path relative to the site root. The code's candidate list is the specification's list
  for root-relative and for page-relative hrefs alike.
\<close>

theorem resolution_order:
  "resolve cfg fs href cur =
     map_option (\<lambda>p. relpath (root_dir cfg) p (root_dir cfg))
       (find (isfile fs) (spec_candidates cfg href cur))"
  by (simp add: resolve_def potential_targets_spec split: option.splits)

text \<open>
  With post.html and post/index.html both on disk, the root-relative href /post resolves
  to post.html.
\<close>

theorem resolution_order_witness:
  "resolve site_cfg post_files ''/post'' ''index.html'' = Some ''post.html''"
  by (subst resolution_order) code_simp

section \<open>C2: a dead link is one ERROR issue and leaves the link graph alone\<close>

text \<open>
  C2. When none of the candidates is a regular file, resolution fails, the auditor that
  \<open>verify_local_link\<close> returns (it always returns one: no branch raises) has exactly one
  more issue, the ERROR dead-link issue with penalty 10, and the same
  \<open>internal_links_map\<close>.
\<close>

theorem dead_link_reported:
  assumes "list_all (\<lambda>p. \<not> isfile fs p) (potential_targets cfg (clean_href href) cur)"
  shows "resolve cfg fs href cur = None
       \<and> issues (verify_local_link cfg fs s href cur) =
           issues s @ [\<lparr> level = ''ERROR'', message = dead_link_message cur href,
                          penalty = 10 \<rparr>]
       \<and> internal_links_map (verify_local_link cfg fs s href cur) = internal_links_map s"
proof -
  from assms have none: "resolve cfg fs href cur = None"
    by (simp add: resolve_None_iff)
  then show ?thesis
    by (simp add: verify_local_link_dead)
qed

theorem dead_link_reported_witness:
  "list_all (\<lambda>p. \<not> isfile post_files p)
     (potential_targets site_cfg (clean_href ''/missing?page=2'') ''index.html'')
   \<and> issues (verify_local_link site_cfg post_files Auditor_init ''/missing?page=2''
              ''index.html'') =
       [\<lparr> level = ''ERROR'',
           message = ''In index.html: Dead Link '' @ quote @ ''/missing?page=2'' @ quote,
           penalty = 10 \<rparr>]"
proof -
  have h: "list_all (\<lambda>p. \<not> isfile post_files p)
             (potential_targets site_cfg (clean_href ''/missing?page=2'') ''index.html'')"
    by code_simp
  from dead_link_reported [OF h, of Auditor_init] h show ?thesis
    by (simp add: Auditor_init_def dead_link_message_def)
qed

section \<open>C10: inbound sources are kept with multiplicity\<close>

text \<open>
  C10. Each successful resolution appends the source page to the target's source list,
  with no check for duplicates: after k references on one page that all resolve to the
  same target, the list has k more entries of that page and the inbound count, which is
  the length that orphan detection and the ranking read, has grown by k.
\<close>

theorem inbound_multiplicity:
  assumes "list_all (\<lambda>h. resolve cfg fs h cur = Some t) hs"
  shows "(case internal_links_map (foldl (\<lambda>s h. verify_local_link cfg fs s h cur) s hs) t of
            None \<Rightarrow> [] | Some l \<Rightarrow> l) =
         (case internal_links_map s t of None \<Rightarrow> [] | Some l \<Rightarrow> l)
           @ replicate (length hs) cur
       \<and> inbound_count (foldl (\<lambda>s h. verify_local_link cfg fs s h cur) s hs) t =
           inbound_count s t + length hs"
  using assms
proof (induction hs arbitrary: s)
  case Nil
  then show ?case by simp
next
  case (Cons h hs)
  let ?s1 = "verify_local_link cfg fs s h cur"
  from Cons.prems have r: "resolve cfg fs h cur = Some t" and rest:
    "list_all (\<lambda>h. resolve cfg fs h cur = Some t) hs"
    by simp_all
  have step: "(case internal_links_map ?s1 t of None \<Rightarrow> [] | Some l \<Rightarrow> l) =
                (case internal_links_map s t of None \<Rightarrow> [] | Some l \<Rightarrow> l) @ [cur]"
    by (simp add: verify_local_link_found [OF r])
  from Cons.IH [OF rest, of ?s1] step show ?case
    by (simp add: inbound_count_def replicate_app_Cons_same)
qed

theorem inbound_multiplicity_witness:
  "list_all (\<lambda>h. resolve site_cfg post_files h ''index.html'' = Some ''post.html'')
     [''/post'', ''/post.html'', ''/post'']
   \<and> inbound_count
       (foldl (\<lambda>s h. verify_local_link site_cfg post_files s h ''index.html'') Auditor_init
          [''/post'', ''/post.html'', ''/post'']) ''post.html'' = 3"
proof -
  have h: "list_all (\<lambda>h. resolve site_cfg post_files h ''index.html'' = Some ''post.html'')
             [''/post'', ''/post.html'', ''/post'']"
    by code_simp
  from inbound_multiplicity [OF h, of Auditor_init] h show ?thesis
    by (simp add: inbound_count_def Auditor_init_def)
qed

section \<open>Facts about link equity\<close>

lemma inbound_count_cong:
  "internal_links_map s' = internal_links_map s \<Longrightarrow> inbound_count s' f = inbound_count s f"
  by (simp add: inbound_count_def)

lemma orphan_issue_inj: "inj orphan_issue"
  by (rule injI) (simp add: orphan_issue_def orphan_message_def)

lemma count_list_distinct:
  "distinct xs \<Longrightarrow> count_list xs x = (if x \<in> set xs then 1 else 0)"
  by (induction xs) auto

lemma orphan_loop:
  "issues (foldl (\<lambda>s' file.
                    if should_ignore_file cfg file then s'
                    else if inbound_count s' file = 0
                    then log_issue s' ''WARN'' (orphan_message file) 5
                    else s') s files) =
     issues s @ map orphan_issue
                  (filter (\<lambda>f. \<not> should_ignore_file cfg f \<and> inbound_count s f = 0) files)
   \<and> internal_links_map (foldl (\<lambda>s' file.
                    if should_ignore_file cfg file then s'
                    else if inbound_count s' file = 0
                    then log_issue s' ''WARN'' (orphan_message file) 5
                    else s') s files) = internal_links_map s"
proof (induction files arbitrary: s)
  case Nil
  then show ?case by simp
next
  case (Cons f files)
  let ?s1 = "if should_ignore_file cfg f then s
             else if inbound_count s f = 0
             then log_issue s ''WARN'' (orphan_message f) 5 else s"
  have m: "internal_links_map ?s1 = internal_links_map s"
    by simp
  have c: "inbound_count ?s1 = inbound_count s"
    by (rule ext) (simp add: inbound_count_def)
  have i: "issues ?s1 = issues s @ (if \<not> should_ignore_file cfg f \<and> inbound_count s f = 0
                                     then [orphan_issue f] else [])"
    by (simp add: orphan_issue_def)
  from Cons.IH [of ?s1] show ?case
    unfolding foldl_Cons c m i by simp
qed

lemma analyze_link_equity_issues:
  "issues (analyze_link_equity cfg s) =
     issues s @ map orphan_issue
                  (filter (\<lambda>f. \<not> should_ignore_file cfg f \<and> inbound_count s f = 0)
                     (processed_files s))"
  unfolding analyze_link_equity_def by (simp add: orphan_loop)

section \<open>C3: orphan issues, index.html included\<close>

text \<open>
  C3 as stated fails: the statement that skipped index.html is commented out in
  \<open>analyze_link_equity\<close>, so a site whose only page is index.html, with no inbound
  link recorded, gets the orphan issue for index.html.
\<close>

theorem index_html_not_exempt:
  "inbound_count (Auditor_init\<lparr> processed_files := [''index.html''] \<rparr>) ''index.html'' = 0
   \<and> issues (analyze_link_equity site_cfg
               (Auditor_init\<lparr> processed_files := [''index.html''] \<rparr>)) =
       [\<lparr> level = ''WARN'', message = ''Orphan Page: index.html has 0 inbound links.'',
           penalty = 5 \<rparr>]"
proof -
  have "\<not> should_ignore_file site_cfg ''index.html''"
    by code_simp
  then show ?thesis
    by (simp add: analyze_link_equity_issues inbound_count_def Auditor_init_def
          orphan_issue_def orphan_message_def)
qed

text \<open>
  C3, amended. Link-equity analysis appends, in the order of the file set, one orphan
  issue (WARN, penalty 5) for each processed file that \<open>should_ignore_file\<close> does not
  exclude and that has no inbound link, index.html included, and nothing else. Since the
  processed files form a set, each such file gets exactly one orphan issue and every other
  file gets none.
\<close>

theorem orphans_reported_once:
  assumes "distinct (processed_files s)"
  shows "issues (analyze_link_equity cfg s) =
           issues s @ map orphan_issue
                        (filter (\<lambda>f. \<not> should_ignore_file cfg f \<and> inbound_count s f = 0)
                           (processed_files s))
       \<and> count_list
           (map orphan_issue
              (filter (\<lambda>f. \<not> should_ignore_file cfg f \<and> inbound_count s f = 0)
                 (processed_files s)))
           (orphan_issue file) =
         (if file \<in> set (processed_files s) \<and> \<not> should_ignore_file cfg file
             \<and> inbound_count s file = 0
          then 1 else 0)
       \<and> level (orphan_issue file) = ''WARN'' \<and> penalty (orphan_issue file) = 5"
proof -
  let ?orphans = "filter (\<lambda>f. \<not> should_ignore_file cfg f \<and> inbound_count s f = 0)
                    (processed_files s)"
  from assms have d: "distinct ?orphans"
    by simp
  have "count_list (map orphan_issue ?orphans) (orphan_issue file) = count_list ?orphans file"
    using orphan_issue_inj by (rule count_list_map_conv)
  also have "\<dots> = (if file \<in> set ?orphans then 1 else 0)"
    using d by (rule count_list_distinct)
  finally have cnt: "count_list (map orphan_issue ?orphans) (orphan_issue file) =
                       (if file \<in> set (processed_files s) \<and> \<not> should_ignore_file cfg file
                           \<and> inbound_count s file = 0
                        then 1 else 0)"
    by simp
  show ?thesis
    using cnt by (simp add: analyze_link_equity_issues orphan_issue_def)
qed

theorem orphans_reported_once_witness:
  "distinct (processed_files (Auditor_init\<lparr> processed_files := [''index.html'', ''a.html''],
               internal_links_map := [''a.html'' \<mapsto> [''index.html'']] \<rparr>))
   \<and> issues (analyze_link_equity site_cfg
               (Auditor_init\<lparr> processed_files := [''index.html'', ''a.html''],
                  internal_links_map := [''a.html'' \<mapsto> [''index.html'']] \<rparr>)) =
       [orphan_issue ''index.html'']"
proof -
  let ?s = "Auditor_init\<lparr> processed_files := [''index.html'', ''a.html''],
              internal_links_map := [''a.html'' \<mapsto> [''index.html'']] \<rparr>"
  have d: "distinct (processed_files ?s)"
    by simp
  have i: "\<not> should_ignore_file site_cfg ''index.html''"
    by code_simp
  from orphans_reported_once [OF d, of site_cfg] d i show ?thesis
    by (simp add: inbound_count_def Auditor_init_def)
qed

section \<open>Facts about classification\<close>

lemma http_contains_scheme:
  assumes "startswith href ''http://'' \<or> startswith href ''https://''"
  shows "contains href ''://''"
proof -
  from assms obtain r where "href = ''http'' @ ''://'' @ r \<or> href = ''https'' @ ''://'' @ r"
    by (auto simp: startswith_def prefix_def)
  then show ?thesis
    unfolding contains_def by (metis sublist_appendI)
qed

lemma http_not_soft_route:
  assumes "startswith href ''http://'' \<or> startswith href ''https://''"
  shows "\<not> startswith href ''/go/''" and "href \<noteq> []"
  using assms by (auto simp: startswith_def prefix_def)

lemma should_ignore_url_http:
  assumes "startswith href ''http://'' \<or> startswith href ''https://''"
  shows "should_ignore_url cfg href \<longleftrightarrow>
           list_ex (\<lambda>p. startswith href p) (ignore_urls_prefixes cfg)
           \<or> list_ex (\<lambda>d. contains href d) (ignore_urls_domains cfg)"
  using http_contains_scheme [OF assms] http_not_soft_route(2) [OF assms]
  by (simp add: should_ignore_url_def)

lemma check_link_ignored:
  "should_ignore_url cfg (strip (a_href a)) \<Longrightarrow> check_link cfg fs cur s a = s"
  by (simp add: check_link_def)

lemma check_link_soft_route:
  assumes "\<not> should_ignore_url cfg (strip (a_href a))"
    and "startswith (strip (a_href a)) ''/go/''"
  shows "issues (check_link cfg fs cur s a) =
           issues s @ (if redirects cfg \<noteq> [] \<and> map_of (redirects cfg) (strip (a_href a)) = None
                       then [\<lparr> level = ''WARN'',
                               message = soft_route_message cur (strip (a_href a)),
                               penalty = 5 \<rparr>]
                       else [])"
  using assms by (simp add: check_link_def Let_def)

lemma check_link_internal_absolute:
  assumes "\<not> should_ignore_url cfg (strip (a_href a))"
    and "startswith (strip (a_href a)) ''http://'' \<or> startswith (strip (a_href a)) ''https://''"
    and "truthy (base_url cfg)" and "startswith (strip (a_href a)) (the (base_url cfg))"
  shows "check_link cfg fs cur s a =
           verify_local_link cfg fs
             (log_issue s ''WARN'' (absolute_link_message cur (strip (a_href a))) 2)
             (let local_part = drop (length (the (base_url cfg))) (strip (a_href a))
              in if startswith local_part ''/'' then local_part else ''/'' @ local_part)
             cur"
  using assms http_not_soft_route(1) [OF assms(2)]
  by (simp add: check_link_def Let_def)

lemma check_link_external:
  assumes "\<not> should_ignore_url cfg (strip (a_href a))"
    and "startswith (strip (a_href a)) ''http://'' \<or> startswith (strip (a_href a)) ''https://''"
    and "\<not> (truthy (base_url cfg) \<and> startswith (strip (a_href a)) (the (base_url cfg)))"
  shows "external_links (check_link cfg fs cur s a) =
           List.insert (strip (a_href a)) (external_links s)"
    and "internal_links_map (check_link cfg fs cur s a) = internal_links_map s"
    and "issues (check_link cfg fs cur s a) =
           issues s @
           (let missing_rels = filter (\<lambda>req. req \<notin> set (a_rel a))
                                 [''nofollow'', ''noopener'', ''noreferrer'']
            in if missing_rels \<noteq> []
               then [\<lparr> level = ''WARN'',
                       message = missing_rel_message cur (strip (a_href a)) missing_rels,
                       penalty = 2 \<rparr>]
               else [])"
  using assms http_not_soft_route(1) [OF assms(2)]
  by (auto simp: check_link_def Let_def)

section \<open>C7: soft routes missing from the redirect table\<close>

text \<open>
  C7 as stated fails: the soft-route check is guarded by the redirect table being
  non-empty. With an empty table, the soft route /go/x, which the table does not
  contain, produces no issue.
\<close>

theorem soft_route_empty_table_silent:
  "redirects site_cfg = []
   \<and> map_of (redirects site_cfg) ''/go/x'' = None
   \<and> startswith (strip ''/go/x'') ''/go/''
   \<and> issues (check_link site_cfg no_files ''index.html'' Auditor_init
               \<lparr> a_href = ''/go/x'', a_rel = [] \<rparr>) = []"
proof -
  have "\<not> should_ignore_url site_cfg (strip ''/go/x'')"
    and s: "startswith (strip ''/go/x'') ''/go/''"
    by code_simp+
  then show ?thesis
    by (simp add: check_link_soft_route site_cfg_def Config_init_def Auditor_init_def)
qed

text \<open>
  C7, amended. For a reference that passes the ignore rules and starts with /go/, the
  check appends exactly one WARN issue with penalty 5 when the redirect table is non-empty
  and does not contain the (stripped, otherwise unchanged) href, and appends nothing when
  the table is empty or contains it.
\<close>

theorem soft_route_warning:
  assumes "\<not> should_ignore_url cfg (strip (a_href a))"
    and "startswith (strip (a_href a)) ''/go/''"
  shows "(redirects cfg \<noteq> [] \<and> map_of (redirects cfg) (strip (a_href a)) = None \<longrightarrow>
            issues (check_link cfg fs cur s a) =
              issues s @ [\<lparr> level = ''WARN'',
                             message = soft_route_message cur (strip (a_href a)),
                             penalty = 5 \<rparr>])
       \<and> (redirects cfg = [] \<or> map_of (redirects cfg) (strip (a_href a)) \<noteq> None \<longrightarrow>
            issues (check_link cfg fs cur s a) = issues s)"
  using check_link_soft_route [OF assms, of fs cur s] by auto

theorem soft_route_warning_witness:
  "\<not> should_ignore_url (site_cfg\<lparr> redirects := [(''/go/shop'', ''https://shop.example'')] \<rparr>)
       (strip (a_href \<lparr> a_href = ''/go/x'', a_rel = [] \<rparr>))
   \<and> startswith (strip (a_href \<lparr> a_href = ''/go/x'', a_rel = [] \<rparr>)) ''/go/''
   \<and> issues (check_link (site_cfg\<lparr> redirects := [(''/go/shop'', ''https://shop.example'')] \<rparr>)
               no_files ''index.html'' Auditor_init \<lparr> a_href = ''/go/x'', a_rel = [] \<rparr>) =
       [\<lparr> level = ''WARN'', message = soft_route_message ''index.html'' ''/go/x'',
           penalty = 5 \<rparr>]"
proof -
  let ?cfg = "site_cfg\<lparr> redirects := [(''/go/shop'', ''https://shop.example'')] \<rparr>"
  let ?a = "\<lparr> a_href = ''/go/x'', a_rel = [] \<rparr>"
  have h1: "\<not> should_ignore_url ?cfg (strip (a_href ?a))"
    by code_simp
  have h2: "startswith (strip (a_href ?a)) ''/go/''"
    by code_simp
  have st: "strip ''/go/x'' = ''/go/x''"
    by code_simp
  from soft_route_warning [OF h1 h2, of no_files "''index.html''" Auditor_init] h1 h2
  show ?thesis
    by (simp add: st Auditor_init_def)
qed

section \<open>C8: classification of absolute URLs\<close>

text \<open>
  C8 as stated fails twice. The ignore rules run before the origin test, and they look
  for a denylisted fragment in the whole URL string: a URL of the site's own origin with
  cdn-cgi in its path is ignored (the auditor is unchanged: no absolute-link warning and no
  resolution), and a foreign URL with google only in its path is ignored as well (it is
  not queued as external).
\<close>

theorem denylist_before_origin_whole_url:
  "base_url site_cfg = Some ''https://example.com''
   \<and> startswith ''https://example.com/cdn-cgi/l/email-protection'' ''https://example.com''
   \<and> check_link site_cfg post_files ''index.html'' Auditor_init
         \<lparr> a_href = ''https://example.com/cdn-cgi/l/email-protection'', a_rel = [] \<rparr>
       = Auditor_init
   \<and> \<not> contains ''other.org'' ''google'' \<and> \<not> contains ''other.org'' ''cdn-cgi''
   \<and> check_link site_cfg post_files ''index.html'' Auditor_init
         \<lparr> a_href = ''https://other.org/google-tips'', a_rel = [] \<rparr>
       = Auditor_init"
proof -
  have b: "base_url site_cfg = Some ''https://example.com''"
    by (simp add: site_cfg_def)
  have p: "startswith ''https://example.com/cdn-cgi/l/email-protection'' ''https://example.com''"
    by code_simp
  have i1: "should_ignore_url site_cfg (strip ''https://example.com/cdn-cgi/l/email-protection'')"
    by code_simp
  have i2: "should_ignore_url site_cfg (strip ''https://other.org/google-tips'')"
    by code_simp
  have h: "\<not> contains ''other.org'' ''google''" "\<not> contains ''other.org'' ''cdn-cgi''"
    by code_simp+
  from b p h i1 i2 show ?thesis
    by (simp add: check_link_ignored)
qed

text \<open>
  C8, amended. For an absolute http(s) URL the ignore rules come first: the URL is
  ignored, leaving the auditor unchanged, exactly when it starts with an ignore prefix or
  contains a denylisted fragment anywhere in the URL string, whether or not it starts with
  the site origin. A URL that is not ignored is internal-absolute when the origin is
  non-empty and the URL starts with it: the absolute-link warning is logged and the
  origin-stripped suffix, given a leading slash when it has none, is resolved locally.
  Otherwise it is external: it joins \<open>external_links\<close> and the link graph is unchanged.
\<close>

theorem absolute_url_classification:
  assumes "startswith (strip (a_href a)) ''http://'' \<or> startswith (strip (a_href a)) ''https://''"
  shows "(should_ignore_url cfg (strip (a_href a)) \<longleftrightarrow>
            list_ex (\<lambda>p. startswith (strip (a_href a)) p) (ignore_urls_prefixes cfg)
            \<or> list_ex (\<lambda>d. contains (strip (a_href a)) d) (ignore_urls_domains cfg))
       \<and> (should_ignore_url cfg (strip (a_href a)) \<longrightarrow> check_link cfg fs cur s a = s)
       \<and> (\<not> should_ignore_url cfg (strip (a_href a)) \<and> truthy (base_url cfg)
            \<and> startswith (strip (a_href a)) (the (base_url cfg)) \<longrightarrow>
            check_link cfg fs cur s a =
              verify_local_link cfg fs
                (log_issue s ''WARN'' (absolute_link_message cur (strip (a_href a))) 2)
                (let local_part = drop (length (the (base_url cfg))) (strip (a_href a))
                 in if startswith local_part ''/'' then local_part else ''/'' @ local_part)
                cur)
       \<and> (\<not> should_ignore_url cfg (strip (a_href a))
            \<and> \<not> (truthy (base_url cfg) \<and> startswith (strip (a_href a)) (the (base_url cfg))) \<longrightarrow>
            external_links (check_link cfg fs cur s a) =
              List.insert (strip (a_href a)) (external_links s)
            \<and> internal_links_map (check_link cfg fs cur s a) = internal_links_map s)"
proof (intro conjI impI)
  show "should_ignore_url cfg (strip (a_href a)) \<longleftrightarrow>
          list_ex (\<lambda>p. startswith (strip (a_href a)) p) (ignore_urls_prefixes cfg)
          \<or> list_ex (\<lambda>d. contains (strip (a_href a)) d) (ignore_urls_domains cfg)"
    using assms by (rule should_ignore_url_http)
next
  assume "should_ignore_url cfg (strip (a_href a))"
  then show "check_link cfg fs cur s a = s"
    by (rule check_link_ignored)
next
  assume h: "\<not> should_ignore_url cfg (strip (a_href a)) \<and> truthy (base_url cfg)
            \<and> startswith (strip (a_href a)) (the (base_url cfg))"
  then show "check_link cfg fs cur s a =
              verify_local_link cfg fs
                (log_issue s ''WARN'' (absolute_link_message cur (strip (a_href a))) 2)
                (let local_part = drop (length (the (base_url cfg))) (strip (a_href a))
                 in if startswith local_part ''/'' then local_part else ''/'' @ local_part)
                cur"
    using assms by (intro check_link_internal_absolute) simp_all
next
  assume h: "\<not> should_ignore_url cfg (strip (a_href a))
            \<and> \<not> (truthy (base_url cfg) \<and> startswith (strip (a_href a)) (the (base_url cfg)))"
  then show "external_links (check_link cfg fs cur s a) =
              List.insert (strip (a_href a)) (external_links s)"
    using assms by (intro check_link_external) simp_all
  from h show "internal_links_map (check_link cfg fs cur s a) = internal_links_map s"
    using assms by (intro check_link_external) simp_all
qed

theorem absolute_url_classification_witness:
  "(startswith (strip ''https://example.com/post'') ''http://''
      \<or> startswith (strip ''https://example.com/post'') ''https://'')
   \<and> \<not> should_ignore_url site_cfg (strip ''https://example.com/post'')
   \<and> truthy (base_url site_cfg)
   \<and> startswith (strip ''https://example.com/post'') (the (base_url site_cfg))
   \<and> internal_links_map
       (check_link site_cfg post_files ''index.html'' Auditor_init
          \<lparr> a_href = ''https://example.com/post'', a_rel = [] \<rparr>) ''post.html''
     = Some [''index.html'']"
proof -
  let ?a = "\<lparr> a_href = ''https://example.com/post'', a_rel = [] \<rparr>"
  have h0: "startswith (strip (a_href ?a)) ''http://'' \<or> startswith (strip (a_href ?a)) ''https://''"
    by code_simp
  have h1: "\<not> should_ignore_url site_cfg (strip ''https://example.com/post'')"
    by code_simp
  have h2: "truthy (base_url site_cfg)"
    by code_simp
  have h3: "startswith (strip ''https://example.com/post'') (the (base_url site_cfg))"
    by code_simp
  have r: "internal_links_map
             (verify_local_link site_cfg post_files
                (log_issue Auditor_init ''WARN''
                   (absolute_link_message ''index.html'' (strip ''https://example.com/post'')) 2)
                (let local_part = drop (length (the (base_url site_cfg)))
                                    (strip ''https://example.com/post'')
                 in if startswith local_part ''/'' then local_part else ''/'' @ local_part)
                ''index.html'') ''post.html'' = Some [''index.html'']"
    by code_simp
  from absolute_url_classification [OF h0, of site_cfg post_files "''index.html''" Auditor_init]
    h0 h1 h2 h3 r
  show ?thesis
    by simp
qed

section \<open>C9: without an origin every absolute URL is external\<close>

text \<open>
  C9. When the home page gives neither a canonical link nor an og:url value, and no base
  URL was set before, \<open>load_from_index\<close> leaves the base URL as the empty string. With
  that configuration an http(s) link that passes the ignore rules is never taken as
  internal-absolute, because the prefix test is guarded by the base URL being non-empty:
  the link joins \<open>external_links\<close>, the link graph is unchanged, and the only issue that
  can be added is the missing-rel warning of the external branch.
\<close>

theorem no_origin_all_external:
  assumes "\<not> truthy (canonical_href m)" and "\<not> truthy (og_url_content m)"
    and "\<not> truthy (base_url cfg0)"
    and "cfg = snd (load_from_index cfg0 (Some m))"
    and "startswith (strip (a_href a)) ''http://'' \<or> startswith (strip (a_href a)) ''https://''"
    and "\<not> should_ignore_url cfg (strip (a_href a))"
  shows "base_url cfg = Some []
       \<and> strip (a_href a) \<in> set (external_links (check_link cfg fs cur s a))
       \<and> internal_links_map (check_link cfg fs cur s a) = internal_links_map s
       \<and> issues (check_link cfg fs cur s a) =
           issues s @
           (let missing_rels = filter (\<lambda>req. req \<notin> set (a_rel a))
                                 [''nofollow'', ''noopener'', ''noreferrer'']
            in if missing_rels \<noteq> []
               then [\<lparr> level = ''WARN'',
                       message = missing_rel_message cur (strip (a_href a)) missing_rels,
                       penalty = 2 \<rparr>]
               else [])"
proof -
  from assms(1-4) have b: "base_url cfg = Some []"
    by (simp add: load_from_index_def Let_def)
  then have nb: "\<not> (truthy (base_url cfg) \<and> startswith (strip (a_href a)) (the (base_url cfg)))"
    by (simp add: truthy_def)
  from check_link_external [OF assms(6) assms(5) nb, of fs cur s] b show ?thesis
    by simp
qed

theorem no_origin_all_external_witness:
  "\<not> truthy (canonical_href \<lparr> canonical_href = None, og_url_content = Some [],
                               keywords_content = None \<rparr>)
   \<and> \<not> truthy (base_url (Config_init ''/site''))
   \<and> \<not> should_ignore_url
         (snd (load_from_index (Config_init ''/site'')
                 (Some \<lparr> canonical_href = None, og_url_content = Some [],
                         keywords_content = None \<rparr>)))
         (strip ''https://example.com/post'')
   \<and> ''https://example.com/post'' \<in> set (external_links
       (check_link
          (snd (load_from_index (Config_init ''/site'')
                  (Some \<lparr> canonical_href = None, og_url_content = Some [],
                          keywords_content = None \<rparr>)))
          post_files ''index.html'' Auditor_init
          \<lparr> a_href = ''https://example.com/post'', a_rel = [] \<rparr>))"
proof -
  let ?m = "\<lparr> canonical_href = None, og_url_content = Some [], keywords_content = None \<rparr>"
  let ?cfg = "snd (load_from_index (Config_init ''/site'') (Some ?m))"
  let ?a = "\<lparr> a_href = ''https://example.com/post'', a_rel = [] \<rparr>"
  have h1: "\<not> truthy (canonical_href ?m)" and h2: "\<not> truthy (og_url_content ?m)"
    and h3: "\<not> truthy (base_url (Config_init ''/site''))"
    by (simp_all add: truthy_def Config_init_def)
  have h5: "startswith (strip (a_href ?a)) ''http://'' \<or> startswith (strip (a_href ?a)) ''https://''"
    by code_simp
  have h6: "\<not> should_ignore_url ?cfg (strip (a_href ?a))"
    by code_simp
  have st: "strip ''https://example.com/post'' = ''https://example.com/post''"
    by code_simp
  from no_origin_all_external [OF h1 h2 h3 refl h5 h6, of post_files "''index.html''" Auditor_init]
    h1 h3 h6
  show ?thesis
    by (simp add: st)
qed

section \<open>Facts about external verification\<close>

lemma verify_url_requests:
  "snd (verify_url net url) =
     (case head_response net url of
        Status c \<Rightarrow> [HEAD url]
      | RequestException e \<Rightarrow> [HEAD url, GET url]
      | OtherException e \<Rightarrow> [HEAD url])"
  by (simp add: verify_url_def split: response.splits)

lemma verify_url_same_url: "r \<in> set (snd (verify_url net url)) \<Longrightarrow> request_url r = url"
  by (auto simp: verify_url_requests split: response.splits)

lemma verify_url_at_most_two: "length (snd (verify_url net url)) \<le> 2"
  by (simp add: verify_url_requests split: response.splits)

lemma requests_of_other_url:
  assumes "u \<notin> set urls"
  shows "filter (\<lambda>r. request_url r = u) (concat (map (\<lambda>v. snd (verify_url net v)) urls)) = []"
  using assms by (induction urls) (auto simp: filter_empty_conv dest: verify_url_same_url)

lemma requests_per_url:
  assumes "distinct urls"
  shows "length (filter (\<lambda>r. request_url r = u)
                   (concat (map (\<lambda>v. snd (verify_url net v)) urls))) \<le> 2"
  using assms
proof (induction urls)
  case Nil
  then show ?case by simp
next
  case (Cons v vs)
  show ?case
  proof (cases "v = u")
    case True
    with Cons.prems have "u \<notin> set vs" by simp
    then have "filter (\<lambda>r. request_url r = u)
                 (concat (map (\<lambda>v. snd (verify_url net v)) vs)) = []"
      by (rule requests_of_other_url)
    moreover have "length (filter (\<lambda>r. request_url r = u) (snd (verify_url net v))) \<le> 2"
      using verify_url_at_most_two [of net v] length_filter_le
      by (rule_tac order_trans) auto
    ultimately show ?thesis by simp
  next
    case False
    then have "filter (\<lambda>r. request_url r = u) (snd (verify_url net v)) = []"
      by (auto simp: filter_empty_conv dest: verify_url_same_url)
    with Cons show ?thesis by simp
  qed
qed

lemma check_external_links_requests:
  "snd (check_external_links net s) =
     concat (map (\<lambda>url. snd (verify_url net url)) (external_links s))"
  by (simp add: check_external_links_def)




lemma fold_result_transport_error_empty:
  "fold_result s url (Inr (None, Some [])) = s"
  by (simp add: fold_result_def truthy_def)

section \<open>Invariants of a run\<close>

text \<open>
  Every operation of a run keeps \<open>ledger_ok\<close> (each call site of \<open>log_issue\<close> passes 0, 2,
  5 or 10) and keeps \<open>external_links\<close> free of duplicates.
\<close>

lemma foldl_invariant:
  assumes "\<And>s x. P s \<Longrightarrow> P (f s x)" and "P s"
  shows "P (foldl f s xs)"
  using assms(2) by (induction xs arbitrary: s) (simp_all add: assms(1))

lemma verify_local_link_external_links [simp]:
  "external_links (verify_local_link cfg fs s href cur) = external_links s"
  by (simp add: verify_local_link_def split: option.splits)

lemma ledger_ok_updates [simp]:
  "ledger_ok (s\<lparr> internal_links_map := m \<rparr>) = ledger_ok s"
  "ledger_ok (s\<lparr> external_links := e \<rparr>) = ledger_ok s"
  "ledger_ok (s\<lparr> soft_route_sources := r \<rparr>) = ledger_ok s"
  "ledger_ok (s\<lparr> external_link_sources := x \<rparr>) = ledger_ok s"
  "ledger_ok (s\<lparr> pages_audited := n \<rparr>) = ledger_ok s"
  "ledger_ok (s\<lparr> processed_files := fl \<rparr>) = ledger_ok s"
  by (simp_all add: ledger_ok_def total_penalty_def)

lemma ledger_ok_verify_local_link:
  assumes "ledger_ok s"
  shows "ledger_ok (verify_local_link cfg fs s href cur)"
proof (cases "resolve cfg fs href cur")
  case None
  with assms show ?thesis
    by (simp add: verify_local_link_dead ledger_ok_log_issue)
next
  case (Some t)
  with assms show ?thesis
    by (simp add: verify_local_link_found)
qed

lemma ledger_ok_check_link:
  assumes "ledger_ok s"
  shows "ledger_ok (check_link cfg fs cur s a)"
  unfolding check_link_def Let_def
  using assms by (simp add: ledger_ok_verify_local_link ledger_ok_log_issue)

lemma distinct_check_link:
  "distinct (external_links s) \<Longrightarrow> distinct (external_links (check_link cfg fs cur s a))"
  by (simp add: check_link_def Let_def)

lemma ledger_ok_check_links:
  assumes "ledger_ok s"
  shows "ledger_ok (check_links cfg fs s anchors cur)"
  unfolding check_links_def
  using ledger_ok_check_link assms by (rule foldl_invariant)

lemma distinct_check_links:
  assumes "distinct (external_links s)"
  shows "distinct (external_links (check_links cfg fs s anchors cur))"
  unfolding check_links_def
  using distinct_check_link assms
  by (rule foldl_invariant [where P = "\<lambda>s. distinct (external_links s)"])

lemma ledger_ok_check_semantics:
  assumes "ledger_ok s"
  shows "ledger_ok (check_semantics s h1s schemas f)"
  unfolding check_semantics_def Let_def
  using assms by (simp add: ledger_ok_log_issue)

lemma external_links_check_semantics [simp]:
  "external_links (check_semantics s h1s schemas f) = external_links s"
  by (simp add: check_semantics_def Let_def)

lemma ledger_ok_audit_file:
  assumes "ledger_ok s"
  shows "ledger_ok (audit_file cfg fs s src rel_path)"
proof (cases src)
  case (Unreadable e)
  with assms show ?thesis
    by (simp add: audit_file_def ledger_ok_log_issue)
next
  case (Markup anchors h1s schemas)
  from assms have "ledger_ok (s\<lparr> pages_audited := pages_audited s + 1 \<rparr>)"
    by simp
  then have "ledger_ok (check_links cfg fs (s\<lparr> pages_audited := pages_audited s + 1 \<rparr>)
                          anchors rel_path)"
    by (rule ledger_ok_check_links)
  then show ?thesis
    unfolding audit_file_def Let_def Markup page_source.case
    by (rule ledger_ok_check_semantics)
qed

lemma distinct_audit_file:
  assumes "distinct (external_links s)"
  shows "distinct (external_links (audit_file cfg fs s src rel_path))"
proof (cases src)
  case (Unreadable e)
  with assms show ?thesis
    by (simp add: audit_file_def)
next
  case (Markup anchors h1s schemas)
  from assms have "distinct (external_links (s\<lparr> pages_audited := pages_audited s + 1 \<rparr>))"
    by simp
  then have "distinct (external_links
               (check_links cfg fs (s\<lparr> pages_audited := pages_audited s + 1 \<rparr>)
                  anchors rel_path))"
    by (rule distinct_check_links)
  then show ?thesis
    by (simp add: audit_file_def Markup)
qed

lemma ledger_ok_traverse:
  assumes "ledger_ok s"
  shows "ledger_ok (traverse cfg fs s entries)"
  unfolding traverse_def
proof (rule foldl_invariant [where P = ledger_ok])
  show "ledger_ok s" by (rule assms)
next
  fix s' :: auditor and e :: walk_entry
  assume "ledger_ok s'"
  then have "ledger_ok (s'\<lparr> processed_files := List.insert (w_rel_path e) (processed_files s') \<rparr>)"
    by simp
  then have "ledger_ok (audit_file cfg fs
               (s'\<lparr> processed_files := List.insert (w_rel_path e) (processed_files s') \<rparr>)
               (w_source e) (w_rel_path e))"
    by (rule ledger_ok_audit_file)
  with \<open>ledger_ok s'\<close>
  show "ledger_ok (if \<not> endswith (w_file e) ''.html'' then s'
              else if should_ignore_file cfg (w_file e) then s'
              else audit_file cfg fs
                     (s'\<lparr> processed_files := List.insert (w_rel_path e) (processed_files s') \<rparr>)
                     (w_source e) (w_rel_path e))"
    by simp
qed

lemma distinct_traverse:
  assumes "distinct (external_links s)"
  shows "distinct (external_links (traverse cfg fs s entries))"
  unfolding traverse_def
proof (rule foldl_invariant [where P = "\<lambda>s. distinct (external_links s)"])
  show "distinct (external_links s)" by (rule assms)
next
  fix s' :: auditor and e :: walk_entry
  assume d: "distinct (external_links s')"
  then have "distinct (external_links
               (s'\<lparr> processed_files := List.insert (w_rel_path e) (processed_files s') \<rparr>))"
    by simp
  then have "distinct (external_links (audit_file cfg fs
               (s'\<lparr> processed_files := List.insert (w_rel_path e) (processed_files s') \<rparr>)
               (w_source e) (w_rel_path e)))"
    by (rule distinct_audit_file)
  with d
  show "distinct (external_links (if \<not> endswith (w_file e) ''.html'' then s'
              else if should_ignore_file cfg (w_file e) then s'
              else audit_file cfg fs
                     (s'\<lparr> processed_files := List.insert (w_rel_path e) (processed_files s') \<rparr>)
                     (w_source e) (w_rel_path e)))"
    by simp
qed

lemma ledger_ok_analyze_link_equity:
  assumes "ledger_ok s"
  shows "ledger_ok (analyze_link_equity cfg s)"
  unfolding analyze_link_equity_def
proof (rule foldl_invariant [where P = ledger_ok])
  show "ledger_ok s" by (rule assms)
next
  fix s' :: auditor and f :: string
  assume "ledger_ok s'"
  then show "ledger_ok (if should_ignore_file cfg f then s'
              else if inbound_count s' f = 0
              then log_issue s' ''WARN'' (orphan_message f) 5
              else s')"
    by (simp add: ledger_ok_log_issue)
qed

lemma external_links_analyze_link_equity:
  "external_links (analyze_link_equity cfg s) = external_links s"
proof -
  have "external_links (foldl (\<lambda>s' file.
                    if should_ignore_file cfg file then s'
                    else if inbound_count s' file = 0
                    then log_issue s' ''WARN'' (orphan_message file) 5
                    else s') s files) = external_links s" for files
    by (induction files arbitrary: s) simp_all
  then show ?thesis
    by (simp add: analyze_link_equity_def)
qed

lemma ledger_ok_fold_result:
  assumes "ledger_ok s"
  shows "ledger_ok (fold_result s url r)"
  unfolding fold_result_def
  using assms by (simp add: ledger_ok_log_issue split: sum.splits prod.splits)

lemma ledger_ok_check_external_links:
  assumes "ledger_ok s"
  shows "ledger_ok (fst (check_external_links net s))"
proof -
  have "ledger_ok (foldl (\<lambda>s' url. fold_result s' url (fst (verify_url net url))) s
                     (external_links s))"
    using ledger_ok_fold_result assms by (rule foldl_invariant)
  with assms show ?thesis
    by (simp add: check_external_links_def)
qed

lemma ledger_ok_run: "ledger_ok (run cfg fs net entries Auditor_init)"
  unfolding run_def
  by (intro ledger_ok_check_external_links ledger_ok_analyze_link_equity ledger_ok_traverse
        ledger_ok_init)

lemma distinct_external_links_run:
  "distinct (external_links (analyze_link_equity cfg (traverse cfg fs Auditor_init entries)))"
  by (simp add: external_links_analyze_link_equity distinct_traverse Auditor_init_def)

section \<open>The processed files of a run are a set\<close>

lemma processed_files_verify_local_link [simp]:
  "processed_files (verify_local_link cfg fs s href cur) = processed_files s"
  by (simp add: verify_local_link_def split: option.splits)

lemma processed_files_check_link [simp]:
  "processed_files (check_link cfg fs cur s a) = processed_files s"
  by (simp add: check_link_def Let_def)

lemma processed_files_check_links [simp]:
  "processed_files (check_links cfg fs s anchors cur) = processed_files s"
  unfolding check_links_def by (induction anchors arbitrary: s) simp_all

lemma processed_files_check_semantics [simp]:
  "processed_files (check_semantics s h1s schemas f) = processed_files s"
  by (simp add: check_semantics_def Let_def)

lemma processed_files_audit_file [simp]:
  "processed_files (audit_file cfg fs s src rel_path) = processed_files s"
  by (simp add: audit_file_def Let_def split: page_source.splits)

lemma distinct_processed_files_traverse:
  assumes "distinct (processed_files s)"
  shows "distinct (processed_files (traverse cfg fs s entries))"
  unfolding traverse_def
  using _ assms
  by (rule foldl_invariant [where P = "\<lambda>s. distinct (processed_files s)"]) simp


section \<open>C5: HEAD first, GET only after a transport failure, two requests at most\<close>

text \<open>
  C5. \<open>verify_url\<close> sends a HEAD request first. It sends the GET request exactly when the
  HEAD raised a RequestException (a failure of the request, not an HTTP status); a HEAD
  that returns a status, whatever its value, is final and its status is the result. The
  external links of a run form a set and each is submitted once, so a run makes at most
  two requests for any one URL.
\<close>

theorem head_first_get_on_failure:
  "snd (verify_url net url) =
     (case head_response net url of
        Status c \<Rightarrow> [HEAD url]
      | RequestException e \<Rightarrow> [HEAD url, GET url]
      | OtherException e \<Rightarrow> [HEAD url])
   \<and> (\<forall>c. head_response net url = Status c \<longrightarrow>
          verify_url net url = (Inr (Some c, None), [HEAD url]))
   \<and> length (filter (\<lambda>r. request_url r = url)
               (snd (check_external_links net
                  (analyze_link_equity cfg (traverse cfg fs Auditor_init entries))))) \<le> 2"
proof (intro conjI allI impI)
  show "snd (verify_url net url) =
     (case head_response net url of
        Status c \<Rightarrow> [HEAD url]
      | RequestException e \<Rightarrow> [HEAD url, GET url]
      | OtherException e \<Rightarrow> [HEAD url])"
    by (rule verify_url_requests)
next
  fix c
  assume "head_response net url = Status c"
  then show "verify_url net url = (Inr (Some c, None), [HEAD url])"
    by (simp add: verify_url_def)
next
  show "length (filter (\<lambda>r. request_url r = url)
               (snd (check_external_links net
                  (analyze_link_equity cfg (traverse cfg fs Auditor_init entries))))) \<le> 2"
    unfolding check_external_links_requests
    using distinct_external_links_run by (rule requests_per_url)
qed

theorem head_first_get_on_failure_witness:
  "verify_url (head_blocked_net\<lparr> head_response := (\<lambda>url. Status 404) \<rparr>) ''https://a.example/''
     = (Inr (Some 404, None), [HEAD ''https://a.example/''])
   \<and> snd (verify_url head_blocked_net ''https://a.example/'')
     = [HEAD ''https://a.example/'', GET ''https://a.example/'']"
  using head_first_get_on_failure
          [of "head_blocked_net\<lparr> head_response := (\<lambda>url. Status 404) \<rparr>" "''https://a.example/''"]
        head_first_get_on_failure [of head_blocked_net "''https://a.example/''"]
  by (simp add: head_blocked_net_def)

section \<open>C6: how verification results enter the ledger\<close>



end
